theory Spec2Isabelle
  imports Complex_Main
begin

section \<open>Python values\<close>

text \<open>
  Python's unbounded integers are \<open>int\<close>. Python's floats are modelled as exact rationals
  (\<open>rat\<close>): the interval table and every quantity derived from it in
  \<open>generate_detailed_sessions\<close> are small multiples of one half, which binary floating
  point represents and multiplies exactly; for the speed and pace formulas the model is the
  exact arithmetic the source's expressions denote. The conversion of an integer to a float
  in \<open>(session_idx - 19) * 0.5\<close> is taken as exact too: it rounds only from \<open>2 ** 53\<close> on,
  where the set count is the lower bound of the \<open>max\<close> either way, and it overflows only
  beyond the range of a float, an index that the loop building the list cannot reach.

  A raised exception is a value \<open>Inl e\<close> of a sum type, a normal return is \<open>Inr v\<close>.
  In Python 3 \<open>IOError\<close> is another name of \<open>OSError\<close>.
\<close>

datatype py_error =
  IndexError | KeyError | TypeError | OSError | JSONDecodeError | UnicodeDecodeError
  | RecursionError

definition py_getitem :: "'a list \<Rightarrow> int \<Rightarrow> py_error + 'a" where
  \<comment> \<open>\<open>xs[i]\<close> on a list: an index below zero counts from the end\<close>
  "py_getitem xs i =
     (if 0 \<le> i \<and> i < int (length xs) then Inr (xs ! nat i)
      else if i < 0 \<and> - int (length xs) \<le> i then Inr (xs ! nat (int (length xs) + i))
      else Inl IndexError)"

definition py_dict_getitem :: "('k \<times> 'v) list \<Rightarrow> 'k \<Rightarrow> py_error + 'v" where
  \<comment> \<open>\<open>d[k]\<close> on a dict literal\<close>
  "py_dict_getitem d k = (case map_of d k of None \<Rightarrow> Inl KeyError | Some v \<Rightarrow> Inr v)"

definition py_int :: "rat \<Rightarrow> int" where
  \<comment> \<open>\<open>int(x)\<close> on a float truncates toward zero\<close>
  "py_int x = (if 0 \<le> x then \<lfloor>x\<rfloor> else \<lceil>x\<rceil>)"

fun py_join :: "string \<Rightarrow> string list \<Rightarrow> string" where
  "py_join sep [] = []"
| "py_join sep [x] = x"
| "py_join sep (x # y # ys) = x @ sep @ py_join sep (y # ys)"


section \<open>The interval table and the set-count rules (training\_plan.py)\<close>

text \<open>
  \<open>TrainingPlan.__init__\<close> first builds a computed progression and then overwrites it with
  the hand-written table below, which is what \<open>self.interval_progress\<close> holds.
\<close>

definition interval_progress :: "(rat \<times> rat) list" where
  "interval_progress =
     [(1.0, 2.0), (2.0, 2.0), (3.0, 2.0),
      (4.0, 3.0), (5.0, 3.0), (8.0, 5.0),
      (6.0, 3.0), (8.0, 3.0), (10.0, 3.0),
      (6.0, 2.0), (28.0, 0), (7.0, 2.0),
      (5.0, 1.5), (32.0, 0), (8.0, 2.0),
      (4.0, 1.0), (35.0, 0), (9.0, 2.0),
      (4.0, 1.5), (20.0, 0), (2.0, 1.0)]"

text \<open>The \<open>custom_sets\<close> dict of \<open>compute_sets\<close> inside \<open>__init__\<close>.\<close>

definition init_custom_sets :: "(int \<times> int) list" where
  "init_custom_sets =
     [(1, 16), (2, 13), (3, 10),
      (4, 7), (5, 6), (6, 5),
      (7, 6), (8, 5), (9, 4)]"

text \<open>The \<open>custom_sets\<close> dict of \<open>compute_sets\<close> inside \<open>generate_detailed_sessions\<close>.\<close>

definition custom_sets :: "(int \<times> int) list" where
  "custom_sets =
     [(1, 16), (2, 12), (3, 10),
      (4, 6), (5, 4), (6, 3),
      (7, 5), (8, 3), (9, 2)]"

text \<open>
  \<open>compute_sets\<close> of \<open>__init__\<close>. In week 4 with an index other than 10, 11, 12 the
  Python function falls off its end and returns \<open>None\<close>, here \<open>None\<close>.
\<close>

definition init_compute_sets :: "int \<Rightarrow> rat \<Rightarrow> int \<Rightarrow> int option" where
  "init_compute_sets session_idx run_min week =
     (if run_min = 0 then Some 1
      else case map_of init_custom_sets session_idx of
        Some n \<Rightarrow> Some n
      | None \<Rightarrow>
          if week = 4 then
            (if session_idx = 10 then Some 6
             else if session_idx = 11 then Some 1
             else if session_idx = 12 then Some 5
             else None)
          else if week = 5 then Some (max 6 (py_int (8 - of_int (session_idx - 13) * 0.5)))
          else if week = 6 then Some (max 5 (py_int (7 - of_int (session_idx - 16) * 0.5)))
          else Some (max 3 (py_int (5 - of_int (session_idx - 19) * 0.5))))"

text \<open>
  \<open>compute_sets\<close> of \<open>generate_detailed_sessions\<close>. Its week-4 block is a plain \<open>if\<close>
  followed by a second \<open>if\<close>/\<open>elif\<close>/\<open>else\<close> chain, so an index that the week-4 block
  does not return on reaches the chain's \<open>else\<close>.
\<close>

definition compute_sets :: "int \<Rightarrow> rat \<Rightarrow> int \<Rightarrow> py_error + int" where
  "compute_sets session_idx run_min week =
     (if run_min = 0 then Inr 1
      else
        case (if session_idx \<le> int (length interval_progress)
              then (case py_getitem interval_progress (session_idx - 1) of
                      Inl e \<Rightarrow> Inl e
                    | Inr (_, walk_min) \<Rightarrow> Inr (walk_min = 0))
              else Inr False) of
          Inl e \<Rightarrow> Inl e
        | Inr True \<Rightarrow> Inr 1
        | Inr False \<Rightarrow>
            (case map_of custom_sets session_idx of
               Some n \<Rightarrow> Inr n
             | None \<Rightarrow>
                 if week = 4 \<and> session_idx = 10 then Inr 6
                 else if week = 4 \<and> session_idx = 11 then Inr 1
                 else if week = 4 \<and> session_idx = 12 then Inr 5
                 else if week = 5 then
                   Inr (max 6 (py_int (8 - of_int (session_idx - 13) * 0.5)))
                 else if week = 6 then
                   Inr (max 5 (py_int (7 - of_int (session_idx - 16) * 0.5)))
                 else Inr (max 3 (py_int (5 - of_int (session_idx - 19) * 0.5)))))"


section \<open>Session expansion (training\_plan.py)\<close>

text \<open>
  One dict of the list that \<open>extract_session_data\<close> of analyze\_training\_plan.py builds;
  the two distance functions add the last eight keys to it, which are \<open>None\<close> while
  unset. It shares the key names \<open>session\<close>, \<open>week\<close>, \<open>day\<close>, \<open>sets\<close> and
  \<open>workout_type\<close> with the next record and is declared first, so that the short names
  are those of \<open>workout_session\<close> and the ones here are written
  \<open>analysis_session.session\<close> and so on.
\<close>

record analysis_session =
  session :: int
  week :: int
  day :: string
  run_min :: rat
  walk_min :: rat
  sets :: int
  total_run_min :: rat
  total_walk_min :: rat
  total_session_min :: rat
  workout_type :: string
  adjusted_speed_kmh :: "rat option"
  adjusted_speed_m_per_min :: "rat option"
  run_distance_m :: "rat option"
  walk_distance_m :: "rat option"
  total_distance_m :: "rat option"
  total_distance_km :: "rat option"
  run_distance_km :: "rat option"
  walk_distance_km :: "rat option"

text \<open>One dict of the list that \<open>generate_detailed_sessions\<close> returns.\<close>

record workout_session =
  session :: int
  week :: int
  day :: int
  day_name :: string
  run_minutes :: rat
  walk_minutes :: rat
  sets :: int
  total_run_time :: rat
  total_workout_time :: rat
  workout_type :: string
  focus :: string
  target_hr_run :: string
  target_hr_walk :: string

text \<open>
  The first half of the loop body: \<open>(run_min, walk_min, sets, workout_type)\<close> for one
  index, by extrapolation beyond the table and from the table otherwise. The locals
  \<open>run_min\<close> and \<open>walk_min\<close> are written \<open>run\<close> and \<open>walk\<close>.
\<close>

definition session_plan :: "int \<Rightarrow> py_error + (rat \<times> rat \<times> int \<times> string)" where
  "session_plan session_idx =
     (if session_idx > int (length interval_progress) then
        (let week = (session_idx - 1) div 3 + 1 in
         if session_idx mod 2 = 1 then
           (case compute_sets session_idx 10.0 week of
              Inl e \<Rightarrow> Inl e
            | Inr n \<Rightarrow> Inr (10.0, 3.0, n, ''long_intervals''))
         else
           (let total_run_time =
                  20 + (session_idx - int (length interval_progress)) * 2
            in Inr (of_int total_run_time, 0, 1, ''continuous_with_breaks'')))
      else
        (case py_getitem interval_progress (session_idx - 1) of
           Inl e \<Rightarrow> Inl e
         | Inr (run, walk) \<Rightarrow>
             (let week = (session_idx - 1) div 3 + 1 in
              case compute_sets session_idx run week of
                Inl e \<Rightarrow> Inl e
              | Inr n \<Rightarrow>
                  Inr (run, walk, n,
                       if walk = 0 then ''continuous_run'' else ''interval_training''))))"

definition day_mapping :: "(int \<times> int) list" where
  "day_mapping = [(1, 1), (2, 2), (3, 4)]"

text \<open>The whole loop body: the dict appended for one index.\<close>

definition session_record :: "int \<Rightarrow> py_error + workout_session" where
  "session_record session_idx =
     (case session_plan session_idx of
        Inl e \<Rightarrow> Inl e
      | Inr (run, walk, n, wtype) \<Rightarrow>
          (let week_num = (session_idx - 1) div 3 + 1;
               day_in_week = (session_idx - 1) mod 3 + 1
           in case py_dict_getitem day_mapping day_in_week of
                Inl e \<Rightarrow> Inl e
              | Inr day_of_week \<Rightarrow>
                  (case py_getitem [''Mon'', ''Tue'', ''Thu''] (day_in_week - 1) of
                     Inl e \<Rightarrow> Inl e
                   | Inr dname \<Rightarrow>
                       Inr \<lparr> workout_session.session = session_idx,
                             workout_session.week = week_num,
                             workout_session.day = day_of_week,
                             day_name = dname,
                             run_minutes = run,
                             walk_minutes = walk,
                             workout_session.sets = n,
                             total_run_time = run * of_int n,
                             total_workout_time =
                               (if walk > 0 then (run + walk) * of_int n
                                else run),
                             workout_session.workout_type = wtype,
                             focus = ''muscle_endurance'',
                             target_hr_run =
                               (if day_in_week = 2 then ''140-160 bpm'' else ''130-150 bpm''),
                             target_hr_walk = ''100-120 bpm'' \<rparr>)))"

text \<open>
  \<open>for session_idx in range(1, session_count + 1)\<close>: the loop from \<open>session_idx\<close> up to
  but excluding \<open>stop\<close>, appending to \<open>workout_sessions\<close>; an exception ends it.
\<close>

function sessions_loop ::
  "int \<Rightarrow> int \<Rightarrow> workout_session list \<Rightarrow> py_error + workout_session list" where
  "sessions_loop session_idx stop workout_sessions =
     (if session_idx < stop then
        (case session_record session_idx of
           Inl e \<Rightarrow> Inl e
         | Inr s \<Rightarrow> sessions_loop (session_idx + 1) stop (workout_sessions @ [s]))
      else Inr workout_sessions)"
  by pat_completeness auto
termination
  by (relation "measure (\<lambda>(i, stop, acc). nat (stop - i))") auto

definition generate_detailed_sessions :: "int \<Rightarrow> py_error + workout_session list" where
  "generate_detailed_sessions session_count = sessions_loop 1 (session_count + 1) []"


section \<open>Distance models (analyze\_training\_plan.py)\<close>

definition extract_session :: "workout_session \<Rightarrow> analysis_session" where
  "extract_session detailed_session =
     (let walk = walk_minutes detailed_session;
          n = workout_session.sets detailed_session
      in \<lparr> analysis_session.session = workout_session.session detailed_session,
           analysis_session.week = workout_session.week detailed_session,
           analysis_session.day = day_name detailed_session,
           run_min = run_minutes detailed_session,
           walk_min = walk,
           analysis_session.sets = n,
           total_run_min = total_run_time detailed_session,
           total_walk_min = (if walk > 0 then walk * of_int n else 0),
           total_session_min = total_workout_time detailed_session,
           analysis_session.workout_type = workout_session.workout_type detailed_session,
           adjusted_speed_kmh = None,
           adjusted_speed_m_per_min = None,
           run_distance_m = None,
           walk_distance_m = None,
           total_distance_m = None,
           total_distance_km = None,
           run_distance_km = None,
           walk_distance_km = None \<rparr>)"

definition extract_session_data :: "py_error + analysis_session list" where
  "extract_session_data =
     (case generate_detailed_sessions 21 of
        Inl e \<Rightarrow> Inl e
      | Inr detailed_sessions \<Rightarrow> Inr (map extract_session detailed_sessions))"

text \<open>The 4-tier fatigue curve: \<open>(adjusted_speed_kmh, adjusted_speed_m_per_min)\<close>.\<close>

definition get_adjusted_speed :: "rat \<Rightarrow> rat \<Rightarrow> rat \<times> rat" where
  "get_adjusted_speed interval_run_minutes base_speed_kmh =
     (let reduction_factor =
            (if interval_run_minutes \<le> 1.0 then 1.0
             else if interval_run_minutes \<le> 2.5 then 0.9
             else if interval_run_minutes \<le> 4.0 then 0.81
             else 0.729);
          adjusted_speed_kmh = base_speed_kmh * reduction_factor;
          adjusted_speed_m_per_min = (adjusted_speed_kmh * 1000) / 60
      in (adjusted_speed_kmh, adjusted_speed_m_per_min))"

text \<open>
  Both functions update every dict of \<open>sessions\<close> in place and return the list; the model
  returns the updated records. The loop is a recursion over the list.
\<close>

primrec calculate_distances_with_fatigue ::
  "analysis_session list \<Rightarrow> rat \<Rightarrow> rat \<Rightarrow> analysis_session list" where
  "calculate_distances_with_fatigue [] base_run_speed_kmh walk_speed_m_per_min = []"
| "calculate_distances_with_fatigue (s # sessions) base_run_speed_kmh walk_speed_m_per_min =
     (let interval_run_min = run_min s;
          (speed_kmh, speed_m_per_min) = get_adjusted_speed interval_run_min base_run_speed_kmh;
          run_m = total_run_min s * speed_m_per_min;
          walk_m = total_walk_min s * walk_speed_m_per_min;
          total_m = run_m + walk_m
      in s \<lparr> adjusted_speed_kmh := Some speed_kmh,
                   adjusted_speed_m_per_min := Some speed_m_per_min,
                   run_distance_m := Some run_m,
                   walk_distance_m := Some walk_m,
                   total_distance_m := Some total_m,
                   total_distance_km := Some (total_m / 1000),
                   run_distance_km := Some (run_m / 1000),
                   walk_distance_km := Some (walk_m / 1000) \<rparr>)
     # calculate_distances_with_fatigue sessions base_run_speed_kmh walk_speed_m_per_min"

primrec calculate_distances ::
  "analysis_session list \<Rightarrow> rat \<Rightarrow> rat \<Rightarrow> analysis_session list" where
  "calculate_distances [] run_speed_m_per_min walk_speed_m_per_min = []"
| "calculate_distances (s # sessions) run_speed_m_per_min walk_speed_m_per_min =
     (let run_m = total_run_min s * run_speed_m_per_min;
          walk_m = total_walk_min s * walk_speed_m_per_min;
          total_m = run_m + walk_m
      in s \<lparr> run_distance_m := Some run_m,
                   walk_distance_m := Some walk_m,
                   total_distance_m := Some total_m,
                   total_distance_km := Some (total_m / 1000),
                   run_distance_km := Some (run_m / 1000),
                   walk_distance_km := Some (walk_m / 1000) \<rparr>)
     # calculate_distances sessions run_speed_m_per_min walk_speed_m_per_min"

text \<open>
  A session dict of the shape \<open>extract_session_data\<close> builds, for \<open>n\<close> runs of \<open>r\<close>
  minutes without walk breaks; the examples below are computed on it.
\<close>

definition interval_session :: "rat \<Rightarrow> int \<Rightarrow> analysis_session" where
  "interval_session r n =
     \<lparr> analysis_session.session = 1, analysis_session.week = 1,
       analysis_session.day = ''Mon'', run_min = r, walk_min = 0,
       analysis_session.sets = n, total_run_min = r * of_int n, total_walk_min = 0,
       total_session_min = r, analysis_session.workout_type = ''continuous_run'',
       adjusted_speed_kmh = None, adjusted_speed_m_per_min = None,
       run_distance_m = None, walk_distance_m = None, total_distance_m = None,
       total_distance_km = None, run_distance_km = None, walk_distance_km = None \<rparr>"


section \<open>The log store (training\_plan.py)\<close>

text \<open>
  A key of a logged week's dict is missing (\<open>Absent\<close>), stored as JSON \<open>null\<close>, that is
  Python's \<open>None\<close> (\<open>Null\<close>), or holds a value. \<open>log_week\<close> writes all six keys and
  writes \<open>None\<close> for a \<open>pace\<close>, \<open>distance\<close> or \<open>recovery\<close> that the caller left out.
\<close>

datatype 'a field = Absent | Null | Val 'a

record week_log =
  pace :: "rat field"
  distance :: "rat field"
  recovery :: "int field"
  skipped :: "bool field"
  comments :: "string field"
  logged_at :: "string field"

text \<open>
  The log mapping in the order of its items. \<open>log_week\<close> stores a week under the key
  \<open>str(week)\<close>; the model keeps the week number itself as the key, so that
  \<open>int(week_str)\<close> is the identity and \<open>logs.get(str(week - 1))\<close> is the lookup of
  \<open>week - 1\<close>.
\<close>

type_synonym logs = "(int \<times> week_log) list"

definition dict_get :: "'a field \<Rightarrow> 'a option" where
  \<comment> \<open>\<open>data.get(key)\<close>: \<open>None\<close> for a missing key and for a stored \<open>None\<close>\<close>
  "dict_get f = (case f of Val v \<Rightarrow> Some v | _ \<Rightarrow> None)"

definition dict_get_default :: "'a field \<Rightarrow> 'a \<Rightarrow> 'a option" where
  \<comment> \<open>\<open>data.get(key, default)\<close>: the default replaces a missing key only\<close>
  "dict_get_default f d = (case f of Absent \<Rightarrow> Some d | Null \<Rightarrow> None | Val v \<Rightarrow> Some v)"

text \<open>
  What \<open>load_logs\<close> sees of the file system: whether the path exists, what \<open>open\<close>
  does (raise, or give a handle), and what \<open>json.load\<close> does on the handle (raise, or
  give the decoded mapping). \<open>json.load\<close> is library code and a parameter here.
\<close>

record 'h log_file =
  path_exists :: bool
  open_file :: "py_error + 'h"
  json_load :: "'h \<Rightarrow> py_error + logs"

definition load_logs_except :: "py_error \<Rightarrow> py_error + logs" where
  \<comment> \<open>\<open>except (json.JSONDecodeError, IOError)\<close>: any other exception propagates\<close>
  "load_logs_except e = (if e = JSONDecodeError \<or> e = OSError then Inr [] else Inl e)"

definition load_logs :: "'h log_file \<Rightarrow> py_error + logs" where
  "load_logs file =
     (if path_exists file then
        (case open_file file of
           Inl e \<Rightarrow> load_logs_except e
         | Inr f \<Rightarrow>
             (case json_load file f of
                Inl e \<Rightarrow> load_logs_except e
              | Inr v \<Rightarrow> Inr v))
      else Inr [])"

text \<open>
  \<open>logs[key] = value\<close> on a dict: an existing key keeps its place, a new key goes last.
\<close>

fun dict_setitem :: "('k \<times> 'v) list \<Rightarrow> 'k \<Rightarrow> 'v \<Rightarrow> ('k \<times> 'v) list" where
  "dict_setitem [] k v = [(k, v)]"
| "dict_setitem ((k', v') # items) k v =
     (if k' = k then (k, v) # items else (k', v') # dict_setitem items k v)"

definition optional :: "'a option \<Rightarrow> 'a field" where
  \<comment> \<open>an \<open>Optional\<close> argument as the value stored for it\<close>
  "optional a = (case a of None \<Rightarrow> Null | Some v \<Rightarrow> Val v)"

text \<open>
  \<open>log_week\<close> on the loaded mapping, with the time stamp it takes from the clock as an
  argument; the result is the mapping it saves. Its parameters \<open>week\<close>, \<open>pace\<close>,
  \<open>distance\<close>, \<open>recovery\<close>, \<open>skipped\<close> and \<open>comments\<close> are written \<open>wk\<close>, \<open>p\<close>, \<open>d\<close>,
  \<open>r\<close>, \<open>s\<close> and \<open>c\<close>.
\<close>

definition log_week ::
  "logs \<Rightarrow> string \<Rightarrow> int \<Rightarrow> rat option \<Rightarrow> rat option \<Rightarrow> int option \<Rightarrow> bool \<Rightarrow> string \<Rightarrow> logs"
  where
  "log_week logs timestamp wk p d r s c =
     dict_setitem logs wk
       \<lparr> pace = optional p, distance = optional d, recovery = optional r,
         skipped = Val s, comments = Val c, logged_at = Val timestamp \<rparr>"


section \<open>Plan adjustment and race prediction (training\_plan.py)\<close>

text \<open>
  Both methods start with \<open>logs = self.load_logs()\<close>; the models take the loaded mapping.

  The paces are floats and are compared as the numbers they are. The product
  \<open>prev_pace * 1.1\<close> is a float multiplication by the float nearest to 1.1 and is rounded,
  so it is not the exact product (for a previous pace of 4.52 it is below 4.972, the pace
  that the exact product would give). The model takes it as the argument \<open>times_1_1\<close>,
  the function from \<open>prev_pace\<close> to the float that Python computes.

  The suggestions collected for one logged week:
\<close>

definition week_suggestions ::
  "(rat \<Rightarrow> rat) \<Rightarrow> logs \<Rightarrow> int \<Rightarrow> week_log \<Rightarrow> string list" where
  "week_suggestions times_1_1 logs wk data =
     (if dict_get_default (skipped data) False = Some True
      then [''Reduce intensity (shorter intervals, more easy running)''] else [])
     @ (case dict_get (recovery data) of
          None \<Rightarrow> []
        | Some r \<Rightarrow>
            if r < 4 then [''Add extra rest day or reduce intensity'']
            else if r < 6 then [''Consider easier pace or shorter workouts'']
            else if r > 8 then [''You're recovering well! Maintain current intensity'']
            else if r \<ge> 9 then
              [''Consider slightly increasing intensity or adding extra workout'']
            else [])
     @ (case dict_get (pace data) of
          None \<Rightarrow> []
        | Some p \<Rightarrow>
            if wk > 1 \<and> p \<noteq> 0 then
              (let prev_pace =
                     (case map_of logs (wk - 1) of
                        None \<Rightarrow> None
                      | Some prev_week_data \<Rightarrow> dict_get (pace prev_week_data))
               in case prev_pace of
                    None \<Rightarrow> []
                  | Some pp \<Rightarrow>
                      if pp \<noteq> 0 \<and> p < pp then [''Great pace improvement! Keep it up!'']
                      else if pp \<noteq> 0 \<and> p > times_1_1 pp then
                        [''Pace seems slower - focus on easy runs this week'']
                      else [])
            else [])"

text \<open>
  \<open>for week_str, data in logs.items()\<close>, the dict \<open>adjustments\<close> passed along; \<open>wk\<close>
  is the local \<open>week\<close>.
\<close>

fun adjust_loop ::
  "(rat \<Rightarrow> rat) \<Rightarrow> logs \<Rightarrow> logs \<Rightarrow> (int \<rightharpoonup> string) \<Rightarrow> (int \<rightharpoonup> string)" where
  "adjust_loop times_1_1 logs [] adjustments = adjustments"
| "adjust_loop times_1_1 logs ((wk, data) # items) adjustments =
     (let next_week = wk + 1 in
      if next_week > 7 then adjust_loop times_1_1 logs items adjustments
      else
        (let suggestions = week_suggestions times_1_1 logs wk data in
         if suggestions \<noteq> []
         then adjust_loop times_1_1 logs items
                (adjustments(next_week \<mapsto> py_join '' | '' suggestions))
         else adjust_loop times_1_1 logs items adjustments))"

definition adjust_plan :: "(rat \<Rightarrow> rat) \<Rightarrow> logs \<Rightarrow> (int \<rightharpoonup> string)" where
  "adjust_plan times_1_1 logs = adjust_loop times_1_1 logs logs Map.empty"

text \<open>
  \<open>max(weeks_with_pace, key=lambda x: x[0])\<close>: the first item with the greatest week,
  starting from the first item as the best so far.
\<close>

fun max_by_week :: "int \<times> week_log \<Rightarrow> (int \<times> week_log) list \<Rightarrow> int \<times> week_log" where
  "max_by_week best [] = best"
| "max_by_week best (x # xs) = max_by_week (if fst x > fst best then x else best) xs"

text \<open>
  \<open>predict_5k\<close> returns text. The two fixed messages are kept as strings, without the
  leading chart emoji; the prediction report is kept as the numbers formatted into it.
  The report always gives the week and the current estimate; it gives the projected
  time, the improvement and the weeks remaining only when \<open>weeks_remaining > 0\<close>, and the
  sentence that the plan is completed otherwise.
\<close>

record prediction_report =
  latest_week :: int
  current_5k_estimate :: rat
  weeks_remaining :: int
  projected_5k_time :: rat

datatype prediction = Message string | Report prediction_report

definition not_enough_data :: string where
  "not_enough_data =
     ''Not enough data to predict race time. Start logging your weekly performance!''"

definition no_pace_data :: string where
  "no_pace_data = ''No pace data available. Log your running pace to get predictions!''"

definition reports_projection :: "prediction_report \<Rightarrow> bool" where
  "reports_projection r = (weeks_remaining r > 0)"

definition weekly_improvement :: "int \<Rightarrow> rat" where
  \<comment> \<open>the rate chosen from the recovery value\<close>
  "weekly_improvement recovery_value =
     (if recovery_value \<ge> 8 then 0.03
      else if recovery_value \<le> 4 then 0.015
      else 0.025)"

definition predict_5k :: "logs \<Rightarrow> py_error + prediction" where
  "predict_5k logs =
     (if logs = [] then Inr (Message not_enough_data)
      else
        case filter (\<lambda>(w, data). dict_get (pace data) \<noteq> None) logs of
          [] \<Rightarrow> Inr (Message no_pace_data)
        | x # xs \<Rightarrow>
            (let (latest_week, latest_data) = max_by_week x xs in
             case pace latest_data of
               Absent \<Rightarrow> Inl KeyError
             | Null \<Rightarrow> Inl TypeError
             | Val p \<Rightarrow>
                 (let current_5k_estimate = p * 5;
                      weeks_completed = latest_week;
                      weeks_remaining = max 0 (7 - weeks_completed)
                  in case dict_get_default (recovery latest_data) 5 of
                       None \<Rightarrow> Inl TypeError
                     | Some r \<Rightarrow>
                         (let total_improvement_factor =
                                (1 - weekly_improvement r) ^ nat weeks_remaining;
                              projected_5k_time = current_5k_estimate * total_improvement_factor
                          in Inr (Report \<lparr> latest_week = latest_week,
                                           current_5k_estimate = current_5k_estimate,
                                           weeks_remaining = weeks_remaining,
                                           projected_5k_time = projected_5k_time \<rparr>)))))"


section \<open>The two set-count tables\<close>

lemma init_custom_sets_outside:
  "k < 1 \<or> 9 < k \<Longrightarrow> map_of init_custom_sets k = None"
  by (auto simp: init_custom_sets_def)

lemma custom_sets_outside:
  "k < 1 \<or> 9 < k \<Longrightarrow> map_of custom_sets k = None"
  by (auto simp: custom_sets_def)

lemma int_1_to_9_cases:
  "1 \<le> (k::int) \<Longrightarrow> k \<le> 9 \<Longrightarrow> k = 1 \<or> k = 2 \<or> k = 3 \<or> k = 4 \<or> k = 5 \<or> k = 6 \<or> k = 7 \<or> k = 8 \<or> k = 9"
  by arith

text \<open>
  Claim C8 as stated says that the two tables agree at index 4. They do not: the table of
  \<open>__init__\<close> gives 7 sets for session 4, the table of \<open>generate_detailed_sessions\<close>
  gives 6.
\<close>

theorem custom_sets_differ_at_4:
  "map_of init_custom_sets 4 = Some 7 \<and> map_of custom_sets 4 = Some 6
   \<and> map_of init_custom_sets 4 \<noteq> map_of custom_sets 4"
  by (simp add: init_custom_sets_def custom_sets_def)

text \<open>
  Claim C8, amended: both tables have exactly the keys 1 to 9, and they differ exactly at
  the indices 2, 4, 5, 6, 7, 8 and 9, that is, they agree at the indices 1 and 3 only.
\<close>

theorem custom_sets_tables_compared:
  "dom (map_of init_custom_sets) = {1..9}
   \<and> dom (map_of custom_sets) = {1..9}
   \<and> {k. map_of init_custom_sets k \<noteq> map_of custom_sets k} = {2, 4, 5, 6, 7, 8, 9}"
proof -
  have d1: "dom (map_of init_custom_sets) = {1..9}"
  proof (rule set_eqI)
    fix k :: int
    show "k \<in> dom (map_of init_custom_sets) \<longleftrightarrow> k \<in> {1..9}"
    proof (cases "1 \<le> k \<and> k \<le> 9")
      case True
      then have "k = 1 \<or> k = 2 \<or> k = 3 \<or> k = 4 \<or> k = 5 \<or> k = 6 \<or> k = 7 \<or> k = 8 \<or> k = 9"
        using int_1_to_9_cases by blast
      then show ?thesis by (auto simp: init_custom_sets_def)
    next
      case False
      then have "map_of init_custom_sets k = None"
        using init_custom_sets_outside [of k] by auto
      with False show ?thesis by (auto simp: dom_def)
    qed
  qed
  have d2: "dom (map_of custom_sets) = {1..9}"
  proof (rule set_eqI)
    fix k :: int
    show "k \<in> dom (map_of custom_sets) \<longleftrightarrow> k \<in> {1..9}"
    proof (cases "1 \<le> k \<and> k \<le> 9")
      case True
      then have "k = 1 \<or> k = 2 \<or> k = 3 \<or> k = 4 \<or> k = 5 \<or> k = 6 \<or> k = 7 \<or> k = 8 \<or> k = 9"
        using int_1_to_9_cases by blast
      then show ?thesis by (auto simp: custom_sets_def)
    next
      case False
      then have "map_of custom_sets k = None"
        using custom_sets_outside [of k] by auto
      with False show ?thesis by (auto simp: dom_def)
    qed
  qed
  have d3: "{k. map_of init_custom_sets k \<noteq> map_of custom_sets k} = {2, 4, 5, 6, 7, 8, 9}"
  proof (rule set_eqI)
    fix k :: int
    show "k \<in> {k. map_of init_custom_sets k \<noteq> map_of custom_sets k}
          \<longleftrightarrow> k \<in> {2, 4, 5, 6, 7, 8, 9}"
    proof (cases "1 \<le> k \<and> k \<le> 9")
      case True
      then have "k = 1 \<or> k = 2 \<or> k = 3 \<or> k = 4 \<or> k = 5 \<or> k = 6 \<or> k = 7 \<or> k = 8 \<or> k = 9"
        using int_1_to_9_cases by blast
      then show ?thesis by (auto simp: init_custom_sets_def custom_sets_def)
    next
      case False
      then have "map_of init_custom_sets k = None" "map_of custom_sets k = None"
        using init_custom_sets_outside [of k] custom_sets_outside [of k] by auto
      with False show ?thesis by auto
    qed
  qed
  from d1 d2 d3 show ?thesis by simp
qed

section \<open>Session expansion: every index yields a record\<close>

lemma py_getitem_in_range:
  "0 \<le> i \<Longrightarrow> i < int (length xs) \<Longrightarrow> py_getitem xs i = Inr (xs ! nat i)"
  by (simp add: py_getitem_def)

lemma length_interval_progress: "length interval_progress = 21"
  by (simp add: interval_progress_def)

lemma custom_sets_positive: "map_of custom_sets k = Some n \<Longrightarrow> 1 \<le> n"
proof -
  assume "map_of custom_sets k = Some n"
  then have "(k, n) \<in> set custom_sets" by (rule map_of_SomeD)
  then show ?thesis by (auto simp: custom_sets_def)
qed

lemma walk_nonneg: "p \<in> set interval_progress \<Longrightarrow> 0 < fst p \<and> 0 \<le> snd p"
  by (auto simp: interval_progress_def)

lemma compute_sets_returns:
  assumes "1 \<le> i"
  shows "\<exists>n. compute_sets i r w = Inr n \<and> 1 \<le> n"
proof -
  let ?cont = "if i \<le> int (length interval_progress)
              then (case py_getitem interval_progress (i - 1) of
                      Inl e \<Rightarrow> Inl e
                    | Inr (_, wm) \<Rightarrow> Inr (wm = 0))
              else Inr False"
  have "\<exists>b. ?cont = Inr b"
  proof (cases "i \<le> 21")
    case True
    with assms have "py_getitem interval_progress (i - 1) = Inr (interval_progress ! nat (i - 1))"
      by (intro py_getitem_in_range) (simp_all add: length_interval_progress)
    with True show ?thesis
      by (simp add: length_interval_progress split: prod.splits)
  next
    case False
    then show ?thesis by (auto simp add: length_interval_progress)
  qed
  then obtain b where b: "?cont = Inr b" by blast
  show ?thesis
  proof (cases "r = 0")
    case True
    then show ?thesis by (simp add: compute_sets_def)
  next
    case r: False
    show ?thesis
    proof (cases b)
      case True
      with r b show ?thesis by (simp add: compute_sets_def)
    next
      case False
      show ?thesis
      proof (cases "map_of custom_sets i")
        case None
        with r b False show ?thesis
          by (simp add: compute_sets_def le_max_iff_disj)
      next
        case (Some n)
        with r b False custom_sets_positive [OF Some] show ?thesis
          by (simp add: compute_sets_def)
      qed
    qed
  qed
qed

lemma session_plan_returns:
  assumes "1 \<le> i"
  shows "\<exists>r w n t. session_plan i = Inr (r, w, n, t) \<and> 0 < r \<and> 0 \<le> w \<and> 1 \<le> n"
proof (cases "i \<le> 21")
  case True
  with assms have g: "py_getitem interval_progress (i - 1) = Inr (interval_progress ! nat (i - 1))"
    by (intro py_getitem_in_range) (simp_all add: length_interval_progress)
  obtain r w where rw: "interval_progress ! nat (i - 1) = (r, w)"
    by (cases "interval_progress ! nat (i - 1)")
  have "interval_progress ! nat (i - 1) \<in> set interval_progress"
    using assms True by (intro nth_mem) (simp add: length_interval_progress)
  with rw have w0: "0 < r \<and> 0 \<le> w" using walk_nonneg by fastforce
  obtain n where n: "compute_sets i r ((i - 1) div 3 + 1) = Inr n" "1 \<le> n"
    using compute_sets_returns [OF assms] by blast
  show ?thesis
    using True g rw n w0 by (simp add: session_plan_def length_interval_progress)
next
  case False
  obtain n where n: "compute_sets i 10.0 ((i - 1) div 3 + 1) = Inr n" "1 \<le> n"
    using compute_sets_returns [OF assms] by blast
  show ?thesis
    using False n by (simp add: session_plan_def length_interval_progress Let_def)
qed

lemma day_slot_cases:
  "(k::int) mod 3 = 0 \<or> k mod 3 = 1 \<or> k mod 3 = 2"
  by presburger

lemma session_record_returns:
  assumes "1 \<le> i"
  shows "\<exists>s. session_record i = Inr s
     \<and> session s = i
     \<and> week s = (i - 1) div 3 + 1
     \<and> day s = (if (i - 1) mod 3 = 0 then 1 else if (i - 1) mod 3 = 1 then 2 else 4)
     \<and> day_name s = (if (i - 1) mod 3 = 0 then ''Mon''
                      else if (i - 1) mod 3 = 1 then ''Tue'' else ''Thu'')
     \<and> 0 < run_minutes s \<and> 0 \<le> walk_minutes s \<and> 1 \<le> sets s
     \<and> total_run_time s = run_minutes s * of_int (sets s)
     \<and> total_workout_time s =
         (if walk_minutes s > 0 then (run_minutes s + walk_minutes s) * of_int (sets s)
          else run_minutes s)"
proof -
  obtain r w n t where p: "session_plan i = Inr (r, w, n, t)"
    and w0: "0 < r" "0 \<le> w" "1 \<le> n"
    using session_plan_returns [OF assms] by blast
  from day_slot_cases [of "i - 1"] show ?thesis
  proof (elim disjE)
    assume "(i - 1) mod 3 = 0"
    then show ?thesis
      using p w0 by (simp add: session_record_def day_mapping_def py_dict_getitem_def py_getitem_def)
  next
    assume "(i - 1) mod 3 = 1"
    then show ?thesis
      using p w0 by (simp add: session_record_def day_mapping_def py_dict_getitem_def py_getitem_def)
  next
    assume "(i - 1) mod 3 = 2"
    then show ?thesis
      using p w0 by (simp add: session_record_def day_mapping_def py_dict_getitem_def py_getitem_def)
  qed
qed

lemma sessions_loop_eq:
  "1 \<le> i \<Longrightarrow>
   sessions_loop i stop acc = Inr (acc @ map (\<lambda>j. projr (session_record j)) [i..stop - 1])"
proof (induction i stop acc rule: sessions_loop.induct)
  case (1 i stop acc)
  show ?case
  proof (cases "i < stop")
    case True
    obtain s where s: "session_record i = Inr s"
      using session_record_returns [OF "1.prems"] by blast
    have ih: "sessions_loop (i + 1) stop (acc @ [s])
              = Inr ((acc @ [s]) @ map (\<lambda>j. projr (session_record j)) [i + 1..stop - 1])"
      using "1.IH" [OF True s] "1.prems" by simp
    have u: "[i..stop - 1] = i # [i + 1..stop - 1]"
      using True by (simp add: upto_rec1)
    show ?thesis
      using True s ih u by (simp del: sessions_loop.simps add: sessions_loop.simps [of i])
  next
    case False
    then show ?thesis by simp
  qed
qed

lemma generate_detailed_sessions_eq:
  "generate_detailed_sessions n = Inr (map (\<lambda>j. projr (session_record j)) [1..n])"
  by (simp add: generate_detailed_sessions_def sessions_loop_eq del: sessions_loop.simps)

lemma nth_generated:
  assumes "generate_detailed_sessions n = Inr ss" and "int k < n"
  shows "ss ! k = projr (session_record (1 + int k))"
proof -
  have ss: "ss = map (\<lambda>j. projr (session_record j)) [1..n]"
    using assms(1) by (simp add: generate_detailed_sessions_eq)
  have "ss ! k = projr (session_record ([1..n] ! k))"
    unfolding ss using assms(2) by (intro nth_map) simp
  also have "[1..n] ! k = 1 + int k"
    using assms(2) by (intro nth_upto) simp
  finally show ?thesis .
qed

lemmas eval_record = session_record_def session_plan_def compute_sets_def py_getitem_def
        interval_progress_def custom_sets_def day_mapping_def py_dict_getitem_def



section \<open>Session expansion: the claims\<close>

text \<open>
  Claim C1: for every \<open>session_count \<ge> 1\<close>, \<open>generate_detailed_sessions\<close> returns (it
  raises nothing) a list of exactly \<open>session_count\<close> records whose \<open>session\<close> fields
  are \<open>1, \<dots>, session_count\<close> in strictly increasing order, whose \<open>week\<close> field is
  \<open>(session - 1) // 3 + 1\<close>, and whose day slot \<open>(session - 1) % 3 + 1\<close> runs through
  1, 2, 3 within each week and is mapped to the days 1, 2, 4 named Mon, Tue, Thu.
\<close>

theorem generate_detailed_sessions_layout:
  assumes "1 \<le> session_count"
  shows "\<exists>ss. generate_detailed_sessions session_count = Inr ss
     \<and> length ss = nat session_count
     \<and> map session ss = [1..session_count]
     \<and> sorted_wrt (<) (map session ss)
     \<and> (\<forall>s \<in> set ss.
           week s = (session s - 1) div 3 + 1
         \<and> day s = (if (session s - 1) mod 3 + 1 = 1 then 1
                    else if (session s - 1) mod 3 + 1 = 2 then 2 else 4)
         \<and> day_name s = (if (session s - 1) mod 3 + 1 = 1 then ''Mon''
                         else if (session s - 1) mod 3 + 1 = 2 then ''Tue'' else ''Thu''))"
proof -
  let ?f = "\<lambda>j. projr (session_record j)"
  let ?ss = "map ?f [1..session_count]"
  have g: "generate_detailed_sessions session_count = Inr ?ss"
    by (rule generate_detailed_sessions_eq)
  have f: "session (?f j) = j
       \<and> week (?f j) = (j - 1) div 3 + 1
       \<and> day (?f j) = (if (j - 1) mod 3 = 0 then 1 else if (j - 1) mod 3 = 1 then 2 else 4)
       \<and> day_name (?f j) = (if (j - 1) mod 3 = 0 then ''Mon''
                            else if (j - 1) mod 3 = 1 then ''Tue'' else ''Thu'')"
    if "1 \<le> j" for j
    using session_record_returns [OF that] by auto
  have len: "length ?ss = nat session_count"
    by simp
  have idx: "map session ?ss = [1..session_count]"
  proof -
    have "map session ?ss = map (\<lambda>j. session (?f j)) [1..session_count]"
      by (simp add: comp_def)
    also have "\<dots> = map (\<lambda>j. j) [1..session_count]"
      by (rule map_cong) (use f in auto)
    finally show ?thesis by simp
  qed
  have srt: "sorted_wrt (<) (map session ?ss)"
    unfolding idx by simp
  have each: "\<forall>s \<in> set ?ss.
           week s = (session s - 1) div 3 + 1
         \<and> day s = (if (session s - 1) mod 3 + 1 = 1 then 1
                    else if (session s - 1) mod 3 + 1 = 2 then 2 else 4)
         \<and> day_name s = (if (session s - 1) mod 3 + 1 = 1 then ''Mon''
                         else if (session s - 1) mod 3 + 1 = 2 then ''Tue'' else ''Thu'')"
  proof
    fix s assume "s \<in> set ?ss"
    then obtain j where j: "1 \<le> j" and s: "s = ?f j" by auto
    from f [OF j] show "week s = (session s - 1) div 3 + 1
         \<and> day s = (if (session s - 1) mod 3 + 1 = 1 then 1
                    else if (session s - 1) mod 3 + 1 = 2 then 2 else 4)
         \<and> day_name s = (if (session s - 1) mod 3 + 1 = 1 then ''Mon''
                         else if (session s - 1) mod 3 + 1 = 2 then ''Tue'' else ''Thu'')"
      unfolding s by simp
  qed
  from g len idx srt each show ?thesis by blast
qed

theorem generate_detailed_sessions_layout_witness:
  "\<exists>ss. generate_detailed_sessions 4 = Inr ss
     \<and> length ss = 4
     \<and> map session ss = [1, 2, 3, 4]
     \<and> map week ss = [1, 1, 1, 2]
     \<and> map day_name ss = [''Mon'', ''Tue'', ''Thu'', ''Mon'']"
proof -
  have h: "(1::int) \<le> 4" by simp
  obtain ss where g: "generate_detailed_sessions 4 = Inr ss"
    and l: "length ss = nat 4"
    and m: "map session ss = [1..4]"
    and e: "\<forall>s \<in> set ss.
           week s = (session s - 1) div 3 + 1
         \<and> day s = (if (session s - 1) mod 3 + 1 = 1 then 1
                    else if (session s - 1) mod 3 + 1 = 2 then 2 else 4)
         \<and> day_name s = (if (session s - 1) mod 3 + 1 = 1 then ''Mon''
                         else if (session s - 1) mod 3 + 1 = 2 then ''Tue'' else ''Thu'')"
    using generate_detailed_sessions_layout [OF h] by blast
  have u: "[1..4::int] = [1, 2, 3, 4]" by (simp add: upto_rec1)
  obtain a b c d where ss: "ss = [a, b, c, d]"
    using l by (auto simp: length_Suc_conv numeral_eq_Suc)
  from m u ss have "session a = 1" "session b = 2" "session c = 3" "session d = 4" by auto
  with e ss have "map week ss = [1, 1, 1, 2]"
    "map day_name ss = [''Mon'', ''Tue'', ''Thu'', ''Mon'']" by auto
  with g l m u show ?thesis by auto
qed

text \<open>
  Claim C2: for every \<open>session_count \<ge> 1\<close> and every record of the returned list,
  \<open>total_run_time\<close> is \<open>run_minutes * sets\<close>, and \<open>total_workout_time\<close> is
  \<open>run_minutes\<close> when \<open>walk_minutes\<close> is zero and \<open>(run_minutes + walk_minutes) * sets\<close>
  when \<open>walk_minutes\<close> is positive. No record has a negative \<open>walk_minutes\<close>, so the two
  cases cover every record.
\<close>

theorem generate_detailed_sessions_totals:
  assumes "1 \<le> session_count"
  shows "\<exists>ss. generate_detailed_sessions session_count = Inr ss
     \<and> (\<forall>s \<in> set ss.
           total_run_time s = run_minutes s * of_int (sets s)
         \<and> 0 \<le> walk_minutes s
         \<and> (walk_minutes s = 0 \<longrightarrow> total_workout_time s = run_minutes s)
         \<and> (walk_minutes s > 0 \<longrightarrow>
              total_workout_time s = (run_minutes s + walk_minutes s) * of_int (sets s)))"
proof -
  let ?f = "\<lambda>j. projr (session_record j)"
  let ?ss = "map ?f [1..session_count]"
  have g: "generate_detailed_sessions session_count = Inr ?ss"
    by (rule generate_detailed_sessions_eq)
  have "total_run_time s = run_minutes s * of_int (sets s)
         \<and> 0 \<le> walk_minutes s
         \<and> (walk_minutes s = 0 \<longrightarrow> total_workout_time s = run_minutes s)
         \<and> (walk_minutes s > 0 \<longrightarrow>
              total_workout_time s = (run_minutes s + walk_minutes s) * of_int (sets s))"
    if "s \<in> set ?ss" for s
  proof -
    from that obtain j where j: "1 \<le> j" and s: "s = ?f j" by auto
    from session_record_returns [OF j] show ?thesis
      unfolding s by auto
  qed
  with g show ?thesis by blast
qed

theorem generate_detailed_sessions_totals_witness:
  "\<exists>ss. generate_detailed_sessions 2 = Inr ss
     \<and> map total_run_time ss = [16, 24]
     \<and> map total_workout_time ss = [48, 48]"
proof -
  have h: "(1::int) \<le> 2" by simp
  have r1: "session_record 1 = Inr s \<Longrightarrow> run_minutes s = 1 \<and> walk_minutes s = 2 \<and> sets s = 16" for s
    by (auto simp add: session_record_def session_plan_def compute_sets_def py_getitem_def
        interval_progress_def custom_sets_def day_mapping_def py_dict_getitem_def)
  have r2: "session_record 2 = Inr s \<Longrightarrow> run_minutes s = 2 \<and> walk_minutes s = 2 \<and> sets s = 12" for s
    by (auto simp add: session_record_def session_plan_def compute_sets_def py_getitem_def
        interval_progress_def custom_sets_def day_mapping_def py_dict_getitem_def)
  obtain ss where g: "generate_detailed_sessions 2 = Inr ss"
    and e: "\<forall>s \<in> set ss.
           total_run_time s = run_minutes s * of_int (sets s)
         \<and> 0 \<le> walk_minutes s
         \<and> (walk_minutes s = 0 \<longrightarrow> total_workout_time s = run_minutes s)
         \<and> (walk_minutes s > 0 \<longrightarrow>
              total_workout_time s = (run_minutes s + walk_minutes s) * of_int (sets s))"
    using generate_detailed_sessions_totals [OF h] by blast
  have u: "[1..2::int] = [1, 2]" by (simp add: upto_rec1)
  from g have ss: "ss = [projr (session_record 1), projr (session_record 2)]"
    by (simp add: generate_detailed_sessions_eq u)
  obtain a b where a: "session_record 1 = Inr a" and b: "session_record 2 = Inr b"
    using session_record_returns [of 1] session_record_returns [of 2] by auto
  from ss a b have ss': "ss = [a, b]" by simp
  from e ss' r1 [OF a] r2 [OF b] have "map total_run_time ss = [16, 24]"
    "map total_workout_time ss = [48, 48]" by auto
  with g show ?thesis by (intro exI [of _ ss]) simp
qed

text \<open>
  Claim C3: in the list produced for 21 sessions, session 1 has 16 sets, session 9 has 2
  sets, the continuous sessions 11, 14, 17 and 20 have 1 set each, and session 6 has
  \<open>run_minutes = 8.0\<close>, \<open>walk_minutes = 5.0\<close>, 3 sets, \<open>total_run_time = 24.0\<close> and
  \<open>total_workout_time = 39.0\<close>.
\<close>

theorem sessions_21_scenario:
  "\<exists>ss. generate_detailed_sessions 21 = Inr ss
     \<and> length ss = 21
     \<and> session (ss ! 0) = 1 \<and> sets (ss ! 0) = 16
     \<and> session (ss ! 8) = 9 \<and> sets (ss ! 8) = 2
     \<and> session (ss ! 10) = 11 \<and> walk_minutes (ss ! 10) = 0 \<and> sets (ss ! 10) = 1
     \<and> session (ss ! 13) = 14 \<and> walk_minutes (ss ! 13) = 0 \<and> sets (ss ! 13) = 1
     \<and> session (ss ! 16) = 17 \<and> walk_minutes (ss ! 16) = 0 \<and> sets (ss ! 16) = 1
     \<and> session (ss ! 19) = 20 \<and> walk_minutes (ss ! 19) = 0 \<and> sets (ss ! 19) = 1
     \<and> session (ss ! 5) = 6 \<and> run_minutes (ss ! 5) = 8.0 \<and> walk_minutes (ss ! 5) = 5.0
     \<and> sets (ss ! 5) = 3 \<and> total_run_time (ss ! 5) = 24.0
     \<and> total_workout_time (ss ! 5) = 39.0"
proof -
  obtain ss where g: "generate_detailed_sessions 21 = Inr ss"
    by (simp add: generate_detailed_sessions_eq)
  have len: "length ss = 21"
    using g by (auto simp: generate_detailed_sessions_eq)
  have n: "ss ! k = projr (session_record (1 + int k))" if "int k < 21" for k
    using nth_generated [OF g that] .
  have s1: "session (ss ! 0) = 1 \<and> sets (ss ! 0) = 16"
    by (simp add: n [of 0] eval_record)
  have s9: "session (ss ! 8) = 9 \<and> sets (ss ! 8) = 2"
    by (simp add: n [of 8] eval_record)
  have s11: "session (ss ! 10) = 11 \<and> walk_minutes (ss ! 10) = 0 \<and> sets (ss ! 10) = 1"
    by (simp add: n [of 10] eval_record)
  have s14: "session (ss ! 13) = 14 \<and> walk_minutes (ss ! 13) = 0 \<and> sets (ss ! 13) = 1"
    by (simp add: n [of 13] eval_record)
  have s17: "session (ss ! 16) = 17 \<and> walk_minutes (ss ! 16) = 0 \<and> sets (ss ! 16) = 1"
    by (simp add: n [of 16] eval_record)
  have s20: "session (ss ! 19) = 20 \<and> walk_minutes (ss ! 19) = 0 \<and> sets (ss ! 19) = 1"
    by (simp add: n [of 19] eval_record)
  have s6: "session (ss ! 5) = 6 \<and> run_minutes (ss ! 5) = 8.0 \<and> walk_minutes (ss ! 5) = 5.0
     \<and> sets (ss ! 5) = 3 \<and> total_run_time (ss ! 5) = 24.0
     \<and> total_workout_time (ss ! 5) = 39.0"
    by (simp add: n [of 5] eval_record)
  from g len s1 s9 s11 s14 s17 s20 s6 show ?thesis by blast
qed

section \<open>The two distance models\<close>

lemma reduction_steps:
  "get_adjusted_speed r b =
     (b * (if r \<le> 1 then 1 else if r \<le> 5 / 2 then 9 / 10
           else if r \<le> 4 then 81 / 100 else 729 / 1000),
      b * (if r \<le> 1 then 1 else if r \<le> 5 / 2 then 9 / 10
           else if r \<le> 4 then 81 / 100 else 729 / 1000) * 1000 / 60)"
  by (simp add: get_adjusted_speed_def Let_def)

lemma adjusted_speed_antimono:
  assumes "0 \<le> b" and "r \<le> r'"
  shows "fst (get_adjusted_speed r' b) \<le> fst (get_adjusted_speed r b)"
    and "snd (get_adjusted_speed r' b) \<le> snd (get_adjusted_speed r b)"
proof -
  let ?f = "\<lambda>r::rat. if r \<le> 1 then 1 else if r \<le> 5 / 2 then 9 / 10
           else if r \<le> 4 then 81 / 100 else (729 / 1000 :: rat)"
  have f: "?f r' \<le> ?f r" using assms(2) by auto
  have m: "b * ?f r' \<le> b * ?f r"
    using f assms(1) by (rule mult_left_mono)
  show "fst (get_adjusted_speed r' b) \<le> fst (get_adjusted_speed r b)"
    using m by (simp only: reduction_steps fst_conv)
  have "b * ?f r' * 1000 / 60 \<le> b * ?f r * 1000 / 60"
    using m by (simp add: divide_right_mono mult_right_mono)
  then show "snd (get_adjusted_speed r' b) \<le> snd (get_adjusted_speed r b)"
    by (simp only: reduction_steps snd_conv)
qed

lemma adjusted_speed_le_base:
  assumes "0 \<le> b"
  shows "snd (get_adjusted_speed r b) \<le> b * 1000 / 60"
proof -
  let ?f = "\<lambda>r::rat. if r \<le> 1 then 1 else if r \<le> 5 / 2 then 9 / 10
           else if r \<le> 4 then 81 / 100 else (729 / 1000 :: rat)"
  have "?f r \<le> 1" by auto
  then have "b * ?f r \<le> b * 1" using assms by (rule mult_left_mono)
  then have "b * ?f r * 1000 / 60 \<le> b * 1 * 1000 / 60"
    by (simp add: divide_right_mono mult_right_mono)
  then show ?thesis by (simp only: reduction_steps snd_conv mult_1_right)
qed

lemma fatigue_nth:
  "i < length sessions \<Longrightarrow>
   run_distance_m (calculate_distances_with_fatigue sessions b w ! i)
     = Some (total_run_min (sessions ! i) * snd (get_adjusted_speed (run_min (sessions ! i)) b))"
proof (induction sessions arbitrary: i)
  case Nil
  then show ?case by simp
next
  case (Cons s sessions)
  show ?case
  proof (cases i)
    case 0
    then show ?thesis by (simp add: Let_def split: prod.splits)
  next
    case (Suc j)
    with Cons show ?thesis by simp
  qed
qed

lemma constant_nth:
  "i < length sessions \<Longrightarrow>
   run_distance_m (calculate_distances sessions v w ! i)
     = Some (total_run_min (sessions ! i) * v)"
proof (induction sessions arbitrary: i)
  case Nil
  then show ?case by simp
next
  case (Cons s sessions)
  show ?case
  proof (cases i)
    case 0
    then show ?thesis by (simp add: Let_def)
  next
    case (Suc j)
    with Cons show ?thesis by simp
  qed
qed

text \<open>
  Claim C4: the adjusted speed of the 4-tier fatigue model does not increase with the
  duration of the single interval. For a base speed that is not negative and two sessions
  of the same total run time, which is not negative, the session with the longer single
  interval gets an adjusted speed and a run distance that are no higher; the instance below
  compares the intervals of 0.5 and of 5 minutes. Speeds and durations are quantities that
  are not negative; for a negative base speed the order is the opposite one.
\<close>

theorem fatigue_speed_monotone:
  assumes "0 \<le> base_run_speed_kmh"
    and "0 \<le> total_run_min s"
    and "total_run_min s' = total_run_min s"
    and "run_min s \<le> run_min s'"
  shows "snd (get_adjusted_speed (run_min s') base_run_speed_kmh)
           \<le> snd (get_adjusted_speed (run_min s) base_run_speed_kmh)
     \<and> (\<exists>d d'.
           map run_distance_m (calculate_distances_with_fatigue [s] base_run_speed_kmh walk) = [Some d]
         \<and> map run_distance_m (calculate_distances_with_fatigue [s'] base_run_speed_kmh walk) = [Some d']
         \<and> d' \<le> d)"
proof -
  let ?v = "snd (get_adjusted_speed (run_min s) base_run_speed_kmh)"
  let ?v' = "snd (get_adjusted_speed (run_min s') base_run_speed_kmh)"
  have v: "?v' \<le> ?v"
    using adjusted_speed_antimono(2) [OF assms(1) assms(4)] .
  have d: "map run_distance_m (calculate_distances_with_fatigue [s] base_run_speed_kmh walk)
             = [Some (total_run_min s * ?v)]"
    using fatigue_nth [of 0 "[s]" base_run_speed_kmh walk] by (simp add: Let_def split: prod.splits)
  have d': "map run_distance_m (calculate_distances_with_fatigue [s'] base_run_speed_kmh walk)
             = [Some (total_run_min s * ?v')]"
    using fatigue_nth [of 0 "[s']" base_run_speed_kmh walk] assms(3)
    by (simp add: Let_def split: prod.splits)
  have le: "total_run_min s * ?v' \<le> total_run_min s * ?v"
    using v assms(2) by (rule mult_left_mono)
  show ?thesis
  proof (intro conjI exI)
    show "?v' \<le> ?v" by (rule v)
    show "map run_distance_m (calculate_distances_with_fatigue [s] base_run_speed_kmh walk)
             = [Some (total_run_min s * ?v)]" by (rule d)
    show "map run_distance_m (calculate_distances_with_fatigue [s'] base_run_speed_kmh walk)
             = [Some (total_run_min s * ?v')]" by (rule d')
    show "total_run_min s * ?v' \<le> total_run_min s * ?v" by (rule le)
  qed
qed

theorem fatigue_speed_monotone_witness:
  "map run_distance_m (calculate_distances_with_fatigue [interval_session 0.5 20] 12 100) = [Some 2000]
   \<and> map run_distance_m (calculate_distances_with_fatigue [interval_session 5 2] 12 100) = [Some 1458]
   \<and> snd (get_adjusted_speed 5 12) \<le> snd (get_adjusted_speed 0.5 12)"
proof -
  have e1: "map run_distance_m (calculate_distances_with_fatigue [interval_session 0.5 20] 12 100) = [Some 2000]"
    by (simp add: interval_session_def get_adjusted_speed_def Let_def)
  have e2: "map run_distance_m (calculate_distances_with_fatigue [interval_session 5 2] 12 100) = [Some 1458]"
    by (simp add: interval_session_def get_adjusted_speed_def Let_def)
  have "snd (get_adjusted_speed (run_min (interval_session 5 2)) 12)
           \<le> snd (get_adjusted_speed (run_min (interval_session 0.5 20)) 12)"
    using fatigue_speed_monotone [of 12 "interval_session 0.5 20" "interval_session 5 2" 100]
    by (simp add: interval_session_def)
  then have "snd (get_adjusted_speed 5 12) \<le> snd (get_adjusted_speed 0.5 12)"
    by (simp add: interval_session_def)
  with e1 e2 show ?thesis by simp
qed

lemma extracted_sessions_positive:
  "\<exists>ss. extract_session_data = Inr ss \<and> length ss = 21
      \<and> (\<forall>s \<in> set ss. 0 < total_run_min s)"
proof -
  let ?f = "\<lambda>j. projr (session_record j)"
  have g: "generate_detailed_sessions 21 = Inr (map ?f [1..21])"
    by (rule generate_detailed_sessions_eq)
  have e: "extract_session_data = Inr (map extract_session (map ?f [1..21]))"
    by (simp add: extract_session_data_def g)
  have "0 < total_run_min (extract_session (?f j))" if j: "1 \<le> j" for j
  proof -
    obtain s where s: "session_record j = Inr s" "0 < run_minutes s" "1 \<le> sets s"
      "total_run_time s = run_minutes s * of_int (sets s)"
      using session_record_returns [OF j] by blast
    have "0 < run_minutes s * of_int (sets s)"
      using s(2,3) by (intro mult_pos_pos) simp_all
    with s show ?thesis by (simp add: extract_session_def Let_def)
  qed
  then have pos: "\<forall>s \<in> set (map extract_session (map ?f [1..21])). 0 < total_run_min s"
    by auto
  have len: "length (map extract_session (map ?f [1..21])) = 21"
    by simp
  from e len pos show ?thesis by (intro exI conjI)
qed

text \<open>
  Claim C5: for every session whose single interval is longer than one minute, and for the
  same base speed in both models (the constant model takes metres per minute, so
  \<open>base * 1000 / 60\<close>), the run distance of \<open>calculate_distances\<close> is at least the run
  distance of \<open>calculate_distances_with_fatigue\<close>. The base speed and the session's total
  run time are quantities that are not negative; \<open>extracted_sessions_positive\<close> shows this
  of every session that \<open>extract_session_data\<close> builds.
\<close>

theorem constant_speed_dominates_fatigue:
  assumes "i < length sessions"
    and "run_min (sessions ! i) > 1.0"
    and "0 \<le> total_run_min (sessions ! i)"
    and "0 \<le> base_run_speed_kmh"
  shows "\<exists>c f.
      run_distance_m (calculate_distances sessions (base_run_speed_kmh * 1000 / 60) walk ! i) = Some c
    \<and> run_distance_m (calculate_distances_with_fatigue sessions base_run_speed_kmh walk ! i) = Some f
    \<and> f \<le> c"
proof -
  let ?s = "sessions ! i"
  have le: "total_run_min ?s * snd (get_adjusted_speed (run_min ?s) base_run_speed_kmh)
          \<le> total_run_min ?s * (base_run_speed_kmh * 1000 / 60)"
    using adjusted_speed_le_base [OF assms(4)] assms(3) by (rule mult_left_mono)
  show ?thesis
  proof (intro conjI exI)
    show "run_distance_m (calculate_distances sessions (base_run_speed_kmh * 1000 / 60) walk ! i)
            = Some (total_run_min ?s * (base_run_speed_kmh * 1000 / 60))"
      by (rule constant_nth [OF assms(1)])
    show "run_distance_m (calculate_distances_with_fatigue sessions base_run_speed_kmh walk ! i)
            = Some (total_run_min ?s * snd (get_adjusted_speed (run_min ?s) base_run_speed_kmh))"
      by (rule fatigue_nth [OF assms(1)])
    show "total_run_min ?s * snd (get_adjusted_speed (run_min ?s) base_run_speed_kmh)
          \<le> total_run_min ?s * (base_run_speed_kmh * 1000 / 60)" by (rule le)
  qed
qed

theorem constant_speed_dominates_fatigue_witness:
  "run_distance_m (calculate_distances [interval_session 8 3] 200 100 ! 0) = Some 4800
   \<and> (\<exists>f. run_distance_m (calculate_distances_with_fatigue [interval_session 8 3] 12 100 ! 0) = Some f
         \<and> f \<le> 4800)"
proof -
  have h: "(0::nat) < length [interval_session 8 3]"
    "run_min ([interval_session 8 3] ! 0) > 1.0"
    "0 \<le> total_run_min ([interval_session 8 3] ! 0)"
    "(0::rat) \<le> 12"
    by (simp_all add: interval_session_def)
  have c: "run_distance_m (calculate_distances [interval_session 8 3] 200 100 ! 0) = Some 4800"
    by (simp add: interval_session_def Let_def)
  from constant_speed_dominates_fatigue [OF h, of 100] c show ?thesis
    by auto
qed


section \<open>The log store: loading\<close>

text \<open>
  What \<open>load_logs\<close> catches: when the file is absent, or \<open>open\<close> or the read inside
  \<open>json.load\<close> raises \<open>OSError\<close>, or \<open>json.load\<close> raises \<open>JSONDecodeError\<close>, the result is
  the empty mapping.
\<close>

lemma load_logs_caught:
  assumes "\<not> path_exists file
     \<or> open_file file = Inl OSError
     \<or> (\<exists>f. open_file file = Inr f
            \<and> (json_load file f = Inl JSONDecodeError \<or> json_load file f = Inl OSError))"
  shows "load_logs file = Inr []"
  using assms by (auto simp: load_logs_def load_logs_except_def)

text \<open>
  What it lets through: every exception of another class, raised by \<open>open\<close> or by
  \<open>json.load\<close> on a file that exists.
\<close>

lemma load_logs_raises_iff:
  "load_logs file = Inl e \<longleftrightarrow>
     path_exists file \<and> e \<noteq> JSONDecodeError \<and> e \<noteq> OSError
     \<and> (open_file file = Inl e \<or> (\<exists>f. open_file file = Inr f \<and> json_load file f = Inl e))"
  by (auto simp: load_logs_def load_logs_except_def split: sum.splits)

text \<open>
  Claim C9 says that \<open>load_logs\<close> returns the empty mapping and lets no exception escape
  for every state of the log file: absent, unreadable, or holding malformed JSON. It does
  not hold of the code. On a log file that holds 2000 opening brackets and nothing else,
  which is malformed JSON, \<open>json.load\<close> raises \<open>RecursionError\<close> and not
  \<open>JSONDecodeError\<close>; on a log file whose bytes are not UTF-8, such as the single byte
  \<open>0xFF\<close>, the read inside \<open>json.load\<close> raises \<open>UnicodeDecodeError\<close>. The clause
  \<open>except (json.JSONDecodeError, IOError)\<close> catches neither, and both escape to the caller.
\<close>

theorem load_logs_exception_escapes:
  "load_logs \<lparr> path_exists = True, open_file = Inr (replicate 2000 (CHR ''['')),
              json_load = (\<lambda>f. Inl RecursionError) \<rparr> = Inl RecursionError
   \<and> load_logs \<lparr> path_exists = True, open_file = Inr [CHR 0xFF],
              json_load = (\<lambda>f. Inl UnicodeDecodeError) \<rparr> = Inl UnicodeDecodeError"
  by (simp add: load_logs_def load_logs_except_def)


section \<open>Plan adjustment\<close>

lemmas eval_logs = log_week_def optional_def dict_get_def dict_get_default_def

text \<open>
  Claim C6 says that a logged week with recovery 9 or more gets the advice to slightly
  increase intensity or add an extra workout. The branch \<open>recovery > 8\<close> comes before the
  branch \<open>recovery >= 9\<close> and takes every such value: after \<open>log_week(1, recovery=9)\<close> the
  entry for week 2 is the advice to maintain the current intensity, and nothing else,
  whatever the float product \<open>times_1_1\<close> is.
\<close>

theorem adjust_plan_recovery_9:
  "adjust_plan times_1_1 (log_week [] ''2025-01-06 18:30:00'' 1 None None (Some 9) False '''') 2
     = Some ''You're recovering well! Maintain current intensity''"
  by (simp add: adjust_plan_def week_suggestions_def eval_logs)

text \<open>No logged week ever gets the advice of the last branch.\<close>

lemma increase_advice_unreachable:
  "''Consider slightly increasing intensity or adding extra workout''
     \<notin> set (week_suggestions times_1_1 logs wk data)"
  by (auto simp: week_suggestions_def Let_def split: option.splits if_splits)


section \<open>Race prediction\<close>

lemma max_by_week_mem: "max_by_week best xs \<in> set (best # xs)"
  by (induction xs arbitrary: best) auto

lemma max_by_week_ge: "y \<in> set (best # xs) \<Longrightarrow> fst y \<le> fst (max_by_week best xs)"
proof (induction xs arbitrary: best y)
  case Nil
  then show ?case by simp
next
  case (Cons x xs)
  let ?b = "if fst x > fst best then x else best"
  have b: "fst best \<le> fst ?b" "fst x \<le> fst ?b" by auto
  have top: "fst ?b \<le> fst (max_by_week ?b xs)"
    by (rule Cons.IH) simp
  from Cons.prems consider "y = best" | "y = x" | "y \<in> set xs" by auto
  then show ?case
  proof cases
    case 1
    with b(1) top show ?thesis by simp
  next
    case 2
    with b(2) top show ?thesis by simp
  next
    case 3
    then have "fst y \<le> fst (max_by_week ?b xs)"
      by (intro Cons.IH) simp
    then show ?thesis by simp
  qed
qed

lemma unique_week:
  "distinct (map fst logs) \<Longrightarrow> (w, d) \<in> set logs \<Longrightarrow> (w, d') \<in> set logs \<Longrightarrow> d = d'"
  by (rule eq_key_imp_eq_value)

text \<open>
  Claim C7 as stated gives the projected time the exponent \<open>7 - w\<close> for every week. The
  code takes \<open>max(0, 7 - w)\<close>: after \<open>log_week(8, pace=6.0, recovery=7)\<close> the projected time
  is the current estimate, 30 minutes, and not \<open>30 * 0.975 ** (-1)\<close>; the text then
  reports no projected time at all.
\<close>

theorem predict_5k_week_8:
  "predict_5k (log_week [] ''2025-01-06 18:30:00'' 8 (Some 6.0) None (Some 7) False '''')
     = Inr (Report \<lparr> latest_week = 8, current_5k_estimate = 30,
                      weeks_remaining = 0, projected_5k_time = 30 \<rparr>)
   \<and> 6.0 * 5 * power_int (1 - 0.025) (7 - 8) \<noteq> (30 :: rat)
   \<and> \<not> reports_projection \<lparr> latest_week = 8, current_5k_estimate = 30,
                      weeks_remaining = 0, projected_5k_time = 30 \<rparr>"
  by (simp add: predict_5k_def eval_logs weekly_improvement_def reports_projection_def
      power_int_minus)

text \<open>
  \<open>log_week\<close> stores \<open>None\<close> under the key \<open>recovery\<close> when the caller gives no recovery
  value, so the default of \<open>latest_data.get("recovery", 5)\<close> does not apply and the
  comparison \<open>recovery >= 8\<close> raises \<open>TypeError\<close>: after \<open>log_week(2, pace=6.0)\<close> the
  prediction raises.
\<close>

lemma predict_5k_null_recovery:
  "predict_5k (log_week [] ''2025-01-06 18:30:00'' 2 (Some 6.0) None None False '''') = Inl TypeError"
  by (simp add: predict_5k_def eval_logs)

text \<open>
  Claim C7, amended: in a log mapping (its week keys distinct) let \<open>w\<close> be the
  highest-numbered week that has a pace \<open>p\<close>. When that week's \<open>recovery\<close> is a number or
  the key is missing, \<open>predict_5k\<close> reports week \<open>w\<close>, the current estimate \<open>p * 5\<close> and
  \<open>max(0, 7 - w)\<close> weeks remaining, and its projected time is
  \<open>p * 5 * (1 - rate) ** max(0, 7 - w)\<close>, where the rate is 0.03 for a recovery of 8 or
  more, 0.015 for a recovery of 4 or less, and 0.025 otherwise and when the key is missing.
\<close>

theorem predict_5k_latest_pace:
  assumes "distinct (map fst logs)"
    and "(w, d) \<in> set logs"
    and "pace d = Val p"
    and "\<forall>(w', d') \<in> set logs. dict_get (pace d') \<noteq> None \<longrightarrow> w' \<le> w"
    and "recovery d \<noteq> Null"
  shows "predict_5k logs =
           Inr (Report \<lparr> latest_week = w,
                  current_5k_estimate = p * 5,
                  weeks_remaining = max 0 (7 - w),
                  projected_5k_time =
                    p * 5 * (1 - (case recovery d of
                                    Val r \<Rightarrow> if r \<ge> 8 then 0.03
                                             else if r \<le> 4 then 0.015 else 0.025
                                  | _ \<Rightarrow> 0.025)) ^ nat (max 0 (7 - w)) \<rparr>)"
proof -
  let ?has = "\<lambda>(w, data). dict_get (pace data) \<noteq> None"
  let ?ws = "filter ?has logs"
  have mem: "(w, d) \<in> set ?ws"
    using assms(2,3) by (simp add: dict_get_def)
  then have "?ws \<noteq> []"
    by (metis empty_iff list.set(1))
  then obtain x xs where ws: "?ws = x # xs"
    by (meson neq_Nil_conv)
  let ?m = "max_by_week x xs"
  have m_in: "?m \<in> set ?ws"
    unfolding ws by (rule max_by_week_mem)
  then have m_logs: "?m \<in> set logs" and m_has: "dict_get (pace (snd ?m)) \<noteq> None"
    by (auto simp: case_prod_beta)
  have "fst ?m \<le> w"
    using assms(4) m_logs m_has by (auto simp: case_prod_beta)
  moreover have "w \<le> fst ?m"
  proof -
    have "(w, d) \<in> set (x # xs)" using mem unfolding ws .
    then have "fst (w, d) \<le> fst ?m" by (rule max_by_week_ge)
    then show ?thesis by simp
  qed
  ultimately have "fst ?m = w" by simp
  then have "(w, snd ?m) \<in> set logs"
    using m_logs by (metis prod.collapse)
  then have "snd ?m = d"
    using unique_week [OF assms(1) _ assms(2)] by blast
  with \<open>fst ?m = w\<close> have m: "?m = (w, d)"
    by (metis prod.collapse)
  have ne: "logs \<noteq> []" using assms(2) by auto
  show ?thesis
  proof (cases "recovery d")
    case Absent
    with ne ws m assms(3) show ?thesis
      by (simp add: predict_5k_def dict_get_default_def weekly_improvement_def Let_def)
  next
    case Null
    with assms(5) show ?thesis by simp
  next
    case (Val r)
    with ne ws m assms(3) show ?thesis
      by (simp add: predict_5k_def dict_get_default_def weekly_improvement_def Let_def)
  qed
qed

theorem predict_5k_latest_pace_witness:
  "predict_5k
     (log_week (log_week [] ''2025-01-06 18:30:00'' 1 (Some 7.0) (Some 3.0) (Some 8) False '''')
        ''2025-01-06 18:30:00'' 2 (Some 6.5) (Some 4.0) (Some 7) False '''')
     = Inr (Report \<lparr> latest_week = 2,
                  current_5k_estimate = 32.5,
                  weeks_remaining = 5,
                  projected_5k_time = 32.5 * (1 - 0.025) ^ 5 \<rparr>)"
proof -
  let ?logs = "(log_week (log_week [] ''2025-01-06 18:30:00'' 1 (Some 7.0) (Some 3.0) (Some 8) False '''')
        ''2025-01-06 18:30:00'' 2 (Some 6.5) (Some 4.0) (Some 7) False '''')"
  let ?d = "\<lparr> pace = Val 6.5, distance = Val 4.0, recovery = Val 7, skipped = Val False,
       comments = Val '''', logged_at = Val ''2025-01-06 18:30:00'' \<rparr>"
  have h: "distinct (map fst ?logs)"
    "(2, ?d) \<in> set ?logs"
    "pace ?d = Val 6.5"
    "\<forall>(w', d') \<in> set ?logs. dict_get (pace d') \<noteq> None \<longrightarrow> w' \<le> (2::int)"
    "recovery ?d \<noteq> Null"
    by (simp_all add: eval_logs)
  from predict_5k_latest_pace [OF h] show ?thesis
    by simp
qed

text \<open>
  Claim C10: for a log mapping that is not empty and in which no week has a pace other
  than \<open>None\<close>, \<open>predict_5k\<close> returns the message that asks for pace data, and for the empty
  mapping it returns the message that there is not enough data; it raises in neither case.
\<close>

theorem predict_5k_without_pace:
  "(logs \<noteq> [] \<and> (\<forall>(w, data) \<in> set logs. dict_get (pace data) = None)
      \<longrightarrow> predict_5k logs = Inr (Message no_pace_data))
   \<and> predict_5k [] = Inr (Message not_enough_data)"
proof -
  have "filter (\<lambda>(w, data). dict_get (pace data) \<noteq> None) logs = []"
    if "\<forall>(w, data) \<in> set logs. dict_get (pace data) = None"
    using that by (auto simp: filter_empty_conv)
  then show ?thesis by (simp add: predict_5k_def)
qed

theorem predict_5k_without_pace_witness:
  "predict_5k (log_week [] ''2025-01-06 18:30:00'' 1 None (Some 3.0) (Some 6) False '''')
     = Inr (Message no_pace_data)"
  using predict_5k_without_pace [of "(log_week [] ''2025-01-06 18:30:00'' 1 None (Some 3.0) (Some 6) False '''')"]
  by (simp add: eval_logs)

end
